theory Spec2Isabelle
  imports Main
begin

section \<open>JavaScript values\<close>

text \<open>
  The hook is generic in the payload type \<open>T\<close>, but its equality function inspects the
  run-time value (\<open>===\<close>, truthiness, \<open>typeof\<close>). Values are therefore modelled as they
  exist at run time. An object carries its reference (two objects are \<open>===\<close> exactly when
  they are the same reference) and its own enumerable properties. Numbers are the integers
  plus \<open>NaN\<close>, the one number that is not \<open>===\<close> to itself.
\<close>

datatype jsval =
    JUndefined
  | JNull
  | JBool bool
  | JNum int
  | JNaN
  | JStr string
  | JObj nat "(string \<times> jsval) list"

text \<open>The operator \<open>a === b\<close>.\<close>

fun strict_eq :: "jsval \<Rightarrow> jsval \<Rightarrow> bool" where
  "strict_eq JUndefined JUndefined = True"
| "strict_eq JNull JNull = True"
| "strict_eq (JBool a) (JBool b) = (a = b)"
| "strict_eq (JNum a) (JNum b) = (a = b)"
| "strict_eq (JStr a) (JStr b) = (a = b)"
| "strict_eq (JObj r fs) (JObj r' gs) = (r = r')"
| "strict_eq a b = False"

text \<open>Truthiness: \<open>!a\<close> holds exactly for the falsy values.\<close>

fun truthy :: "jsval \<Rightarrow> bool" where
  "truthy JUndefined = False"
| "truthy JNull = False"
| "truthy (JBool b) = b"
| "truthy (JNum n) = (n \<noteq> 0)"
| "truthy JNaN = False"
| "truthy (JStr s) = (s \<noteq> [])"
| "truthy (JObj r fs) = True"

fun typeof :: "jsval \<Rightarrow> string" where
  "typeof JUndefined = ''undefined''"
| "typeof JNull = ''object''"
| "typeof (JBool b) = ''boolean''"
| "typeof (JNum n) = ''number''"
| "typeof JNaN = ''number''"
| "typeof (JStr s) = ''string''"
| "typeof (JObj r fs) = ''object''"

text \<open>The operator \<open>a ?? b\<close>.\<close>

definition nullish :: "jsval \<Rightarrow> jsval \<Rightarrow> jsval" where
  "nullish a b = (if a = JUndefined \<or> a = JNull then b else a)"

text \<open>Property access \<open>d.name\<close> on a value that is neither \<open>null\<close> nor \<open>undefined\<close>.\<close>

fun getProp :: "jsval \<Rightarrow> string \<Rightarrow> jsval" where
  "getProp (JObj r fs) name = (case map_of fs name of Some v \<Rightarrow> v | None \<Rightarrow> JUndefined)"
| "getProp d name = JUndefined"

section \<open>The validity and equality functions of useLocalDb\<close>

text \<open>
  \<open>isValid\<close> of \<open>useLocalDb\<close>: \<open>null\<close> is always valid, anything else is handed to the
  schema. The schema is a parameter: \<open>schema v\<close> stands for
  \<open>schema.safeParse(v).success\<close>.
\<close>

definition useLocalDb_isValid :: "(jsval \<Rightarrow> bool) \<Rightarrow> jsval \<Rightarrow> bool" where
  "useLocalDb_isValid schema v = (if v = JNull then True else schema v)"

text \<open>
  \<open>isEqual\<close> of \<open>useLocalDb\<close>, line by line. The imported \<open>deepEqual\<close> (package
  fast-deep-equal) is a parameter.
\<close>

definition useLocalDb_isEqual :: "(jsval \<Rightarrow> jsval \<Rightarrow> bool) \<Rightarrow> jsval \<Rightarrow> jsval \<Rightarrow> bool" where
  "useLocalDb_isEqual deq a b =
     (if strict_eq a b then True
      else if \<not> truthy a \<or> \<not> truthy b then False
      else if typeof a \<noteq> ''object'' \<or> typeof b \<noteq> ''object'' then False
      else deq a b)"

text \<open>
  The reference relation of the specification, following its words: equal when
  reference-identical; otherwise unequal when either operand is absent or missing;
  otherwise deep structural equality when both are composite; otherwise strict value
  equality. Identity and strict value equality are both the language's \<open>===\<close>.
\<close>

definition absent :: "jsval \<Rightarrow> bool" where
  "absent v = (v = JUndefined \<or> v = JNull)"

fun composite :: "jsval \<Rightarrow> bool" where
  "composite (JObj r fs) = True"
| "composite v = False"

definition isEqual_spec :: "(jsval \<Rightarrow> jsval \<Rightarrow> bool) \<Rightarrow> jsval \<Rightarrow> jsval \<Rightarrow> bool" where
  "isEqual_spec deq a b =
     (if strict_eq a b then True
      else if absent a \<or> absent b then False
      else if composite a \<and> composite b then deq a b
      else strict_eq a b)"

text \<open>
  A stand-in for fast-deep-equal on plain objects, used where a concrete run needs one:
  the same reference, or the same number of own properties with every property of the
  first present in the second with a deeply equal value; on everything else \<open>===\<close>, with
  \<open>NaN\<close> equal to \<open>NaN\<close>.
\<close>

fun deepEqual :: "jsval \<Rightarrow> jsval \<Rightarrow> bool" where
  "deepEqual (JObj r fs) (JObj r' gs) =
     (r = r' \<or> (length fs = length gs \<and>
        (\<forall>kv \<in> set fs. case map_of gs (fst kv) of
                            None \<Rightarrow> False
                          | Some w \<Rightarrow> deepEqual (snd kv) w)))"
| "deepEqual JNaN JNaN = True"
| "deepEqual a b = strict_eq a b"

section \<open>Namespaces and the registry key (idb.ts, store-registry)\<close>

definition DEFAULT_DB :: string where
  "DEFAULT_DB = ''local-db''"

definition DEFAULT_STORE :: string where
  "DEFAULT_STORE = ''local-db''"

record Ns =
  dbName :: "string option"
  storeName :: "string option"

text \<open>\<open>ns ?? {}\<close>, \<open>ns.dbName ?? DEFAULT_DB\<close> and \<open>ns.storeName ?? DEFAULT_STORE\<close>.\<close>

definition nsOrEmpty :: "Ns option \<Rightarrow> Ns" where
  "nsOrEmpty ns = (case ns of None \<Rightarrow> \<lparr>dbName = None, storeName = None\<rparr> | Some n \<Rightarrow> n)"

definition nsDb :: "Ns \<Rightarrow> string" where
  "nsDb ns = (case dbName ns of None \<Rightarrow> DEFAULT_DB | Some d \<Rightarrow> d)"

definition nsSt :: "Ns \<Rightarrow> string" where
  "nsSt ns = (case storeName ns of None \<Rightarrow> DEFAULT_STORE | Some s \<Rightarrow> s)"

text \<open>The template string \<open>`${db}/${st}|${key}`\<close>.\<close>

definition regKey :: "string \<Rightarrow> Ns \<Rightarrow> string" where
  "regKey k ns = nsDb ns @ ''/'' @ nsSt ns @ ''|'' @ k"

section \<open>The store record and its collaborators\<close>

text \<open>
  \<open>StoreState<T>\<close>. The field \<open>value\<close> is \<open>undefined\<close> while hydrating. The listener set
  is a list without repetition in insertion order, as a JavaScript \<open>Set\<close> iterates; a
  listener is known by its identity only, and calling it is an event.
\<close>

record StoreState =
  value' :: jsval
  repairTo :: jsval
  hydrated :: bool
  listeners :: "nat list"

text \<open>What the closures created by \<open>getStore\<close> capture from its arguments.\<close>

record Closure =
  key :: string
  ns :: "Ns option"
  isValid :: "jsval \<Rightarrow> bool"
  isEqual :: "jsval \<Rightarrow> jsval \<Rightarrow> bool"

text \<open>
  The execution context: whether \<open>window\<close> is defined, whether \<open>getOrCreateIdbStore\<close>
  yields a store for the namespace (\<open>indexedDB\<close> is defined and \<open>createStore\<close> did not
  throw), and whether constructing the \<open>BroadcastChannel\<close> succeeds. Both drivers cache
  their answer per namespace, so each is fixed for the life of a record.
\<close>

record Platform =
  hasWindow :: bool
  idbStore :: bool
  bcChannel :: bool

text \<open>The message \<open>{ key, value, removed }\<close> handed to \<open>postMessage\<close>.\<close>

record Message =
  msg_key :: string
  msg_value :: jsval
  msg_removed :: bool

text \<open>
  The calls that leave the repository, in the order they are made: the three idb-keyval
  operations on the store of a (database, store) pair, the two operations on the channel
  of that pair, and the invocation of a listener.
\<close>

datatype event =
    IdbGet string string string
  | IdbPut string string string jsval
  | IdbDel string string string
  | BcPost string string Message
  | BcListen string string
  | Call nat

text \<open>
  An async function runs synchronously up to its first \<open>await\<close>; what follows the
  \<open>await\<close> runs later, when the awaited promise has settled. A task is such a suspended
  remainder: of \<open>hydrate\<close> at \<open>await idbGet(key, ns)\<close>, of \<open>hydrate\<close> at
  \<open>await persist(finalVal)\<close>, and of the async block of \<open>setValue\<close> at
  \<open>await persist(safe)\<close>.
\<close>

datatype task =
    AwaitGet
  | AwaitWriteBack
  | AwaitPersist jsval

text \<open>
  The outcome of running a piece of code to its end or to its next \<open>await\<close>: the state
  it leaves, the calls it made, and the tasks it left suspended.
\<close>

record Outcome =
  after :: StoreState
  emitted :: "event list"
  pending :: "task list"

definition getBroadcastChannel :: "Platform \<Rightarrow> bool" where
  "getBroadcastChannel P = (if \<not> hasWindow P then False else bcChannel P)"

text \<open>
  \<open>idbGet\<close> and \<open>idbSet\<close> up to their \<open>await\<close>: without a store they return at once,
  otherwise they call \<open>get\<close>, or \<open>del\<close> for \<open>null\<close> and \<open>set\<close> for anything else.
\<close>

definition idbGet :: "Platform \<Rightarrow> string \<Rightarrow> Ns option \<Rightarrow> event list" where
  "idbGet P k opts =
     (if \<not> idbStore P then []
      else [IdbGet (nsDb (nsOrEmpty opts)) (nsSt (nsOrEmpty opts)) k])"

definition idbSet :: "Platform \<Rightarrow> string \<Rightarrow> jsval \<Rightarrow> Ns option \<Rightarrow> event list" where
  "idbSet P k v opts =
     (if \<not> idbStore P then []
      else if v = JNull then [IdbDel (nsDb (nsOrEmpty opts)) (nsSt (nsOrEmpty opts)) k]
      else [IdbPut (nsDb (nsOrEmpty opts)) (nsSt (nsOrEmpty opts)) k v])"

definition notify :: "StoreState \<Rightarrow> event list" where
  "notify st = map Call (listeners st)"

definition persist :: "Platform \<Rightarrow> Closure \<Rightarrow> jsval \<Rightarrow> event list" where
  "persist P C v = idbSet P (key C) v (ns C)"

section \<open>The operations of a store record (getStore)\<close>

text \<open>
  \<open>setValue\<close>: the assignment, then the async block, which runs into \<open>persist\<close> and
  \<open>idbSet\<close> up to the \<open>await\<close> of the write, then \<open>notify()\<close>.
\<close>

definition setValue :: "Platform \<Rightarrow> Closure \<Rightarrow> StoreState \<Rightarrow> jsval \<Rightarrow> Outcome" where
  "setValue P C st next =
     (let safe = (if isValid C next then next else repairTo st) in
      if isEqual C (value' st) safe then \<lparr>after = st, emitted = [], pending = []\<rparr>
      else \<lparr>after = st\<lparr>value' := safe\<rparr>,
            emitted = persist P C safe @ notify (st\<lparr>value' := safe\<rparr>),
            pending = [AwaitPersist safe]\<rparr>)"

text \<open>The rest of the async block of \<open>setValue\<close>, after \<open>await persist(safe)\<close>.\<close>

definition afterPersist :: "Platform \<Rightarrow> Closure \<Rightarrow> jsval \<Rightarrow> event list" where
  "afterPersist P C safe =
     (if getBroadcastChannel P
      then [BcPost (nsDb (nsOrEmpty (ns C))) (nsSt (nsOrEmpty (ns C)))
              \<lparr>msg_key = key C, msg_value = safe, msg_removed = (safe = JNull)\<rparr>]
      else [])"

text \<open>
  \<open>setValue\<close> with its collaborators allowed to throw. It calls \<open>isValid\<close>, \<open>isEqual\<close>
  and, in \<open>notify()\<close>, every listener in turn, none of them inside a \<open>try\<close>: what one of
  them throws leaves \<open>setValue\<close> at that point and reaches its caller. Nothing thrown
  inside the async block does, since that only rejects the block's promise. Which calls
  throw is a parameter. The result is the outcome up to the throw and what was thrown, if
  anything; \<open>setValue\<close> above is the run in which nothing throws.
\<close>

datatype thrown =
    FromIsValid
  | FromIsEqual
  | FromListener nat

record Faults =
  validThrows :: "jsval \<Rightarrow> bool"
  equalThrows :: "jsval \<Rightarrow> jsval \<Rightarrow> bool"
  listenerThrows :: "nat \<Rightarrow> bool"

text \<open>\<open>for (const fn of state.listeners) fn()\<close>: the loop ends at the first throw.\<close>

fun notifyE :: "Faults \<Rightarrow> nat list \<Rightarrow> event list \<times> thrown option" where
  "notifyE F [] = ([], None)"
| "notifyE F (l # ls) =
     (if listenerThrows F l then ([Call l], Some (FromListener l))
      else (Call l # fst (notifyE F ls), snd (notifyE F ls)))"

definition setValueE ::
  "Faults \<Rightarrow> Platform \<Rightarrow> Closure \<Rightarrow> StoreState \<Rightarrow> jsval \<Rightarrow> Outcome \<times> thrown option" where
  "setValueE F P C st next =
     (if validThrows F next
      then (\<lparr>after = st, emitted = [], pending = []\<rparr>, Some FromIsValid)
      else
        let safe = (if isValid C next then next else repairTo st) in
        if equalThrows F (value' st) safe
        then (\<lparr>after = st, emitted = [], pending = []\<rparr>, Some FromIsEqual)
        else if isEqual C (value' st) safe
        then (\<lparr>after = st, emitted = [], pending = []\<rparr>, None)
        else (\<lparr>after = st\<lparr>value' := safe\<rparr>,
               emitted = persist P C safe @ fst (notifyE F (listeners st)),
               pending = [AwaitPersist safe]\<rparr>,
              snd (notifyE F (listeners st))))"

text \<open>
  \<open>hydrate\<close>, the synchronous part: the guard, the flag, the return outside a browser,
  the async block up to \<open>await idbGet\<close>, and the registration of the message handler.
\<close>

definition hydrate :: "Platform \<Rightarrow> Closure \<Rightarrow> StoreState \<Rightarrow> Outcome" where
  "hydrate P C st =
     (if hydrated st then \<lparr>after = st, emitted = [], pending = []\<rparr>
      else if \<not> hasWindow P
        then \<lparr>after = st\<lparr>hydrated := True\<rparr>, emitted = [], pending = []\<rparr>
      else \<lparr>after = st\<lparr>hydrated := True\<rparr>,
            emitted = idbGet P (key C) (ns C) @
              (if getBroadcastChannel P
               then [BcListen (nsDb (nsOrEmpty (ns C))) (nsSt (nsOrEmpty (ns C)))]
               else []),
            pending = [AwaitGet]\<rparr>)"

text \<open>
  The async block of \<open>hydrate\<close> from the moment \<open>idbGet\<close> has resolved with \<open>got\<close>
  (\<open>undefined\<close> when the key is missing, the store is unavailable or the read failed) up
  to \<open>await persist(finalVal)\<close>, or to its end when nothing is written back.
\<close>

definition hydrateLoaded :: "Platform \<Rightarrow> Closure \<Rightarrow> StoreState \<Rightarrow> jsval \<Rightarrow> Outcome" where
  "hydrateLoaded P C st got =
     (let persisted = nullish got (repairTo st);
          finalVal = (if isValid C persisted then persisted else repairTo st)
      in if \<not> isEqual C persisted finalVal
         then \<lparr>after = st\<lparr>value' := finalVal\<rparr>,
               emitted = persist P C finalVal,
               pending = [AwaitWriteBack]\<rparr>
         else \<lparr>after = st\<lparr>value' := finalVal\<rparr>,
               emitted = notify (st\<lparr>value' := finalVal\<rparr>),
               pending = []\<rparr>)"

text \<open>The end of the async block of \<open>hydrate\<close> after the write-back: \<open>notify()\<close>.\<close>

definition hydrateWritten :: "StoreState \<Rightarrow> Outcome" where
  "hydrateWritten st = \<lparr>after = st, emitted = notify st, pending = []\<rparr>"

text \<open>
  The message handler registered by \<open>hydrate\<close>, applied to \<open>event?.data\<close>, which can be
  any value.
\<close>

definition handler :: "Closure \<Rightarrow> StoreState \<Rightarrow> jsval \<Rightarrow> Outcome" where
  "handler C st d =
     (if \<not> truthy d \<or> \<not> strict_eq (getProp d ''key'') (JStr (key C))
      then \<lparr>after = st, emitted = [], pending = []\<rparr>
      else
        let incoming = (if truthy (getProp d ''removed'') then repairTo st
                        else getProp d ''value'');
            safe = (if isValid C incoming then incoming else repairTo st)
        in if \<not> isEqual C (value' st) safe
           then \<lparr>after = st\<lparr>value' := safe\<rparr>,
                 emitted = notify (st\<lparr>value' := safe\<rparr>),
                 pending = []\<rparr>
           else \<lparr>after = st, emitted = [], pending = []\<rparr>)"

section \<open>A record over time\<close>

text \<open>
  Everything that can happen to one record: a call of \<open>hydrate\<close> or \<open>setValue\<close>, a
  consumer adding or deleting its listener, a suspended task being resumed (the awaited
  read resolving with a value, or an awaited write settling), and the delivery of a message
  to the handler, which requires the handler to have been registered. The world of a
  record is its state, its suspended tasks, whether its handler is registered, and the
  calls made so far.
\<close>

record World =
  store :: StoreState
  tasks :: "task list"
  subscribed :: bool
  trace :: "event list"

datatype action =
    Hydrate
  | SetValue jsval
  | AddListener nat
  | DeleteListener nat
  | Resume nat jsval
  | Deliver jsval

definition resume :: "Platform \<Rightarrow> Closure \<Rightarrow> StoreState \<Rightarrow> task \<Rightarrow> jsval \<Rightarrow> Outcome" where
  "resume P C st t got =
     (case t of
        AwaitGet \<Rightarrow> hydrateLoaded P C st got
      | AwaitWriteBack \<Rightarrow> hydrateWritten st
      | AwaitPersist safe \<Rightarrow> \<lparr>after = st, emitted = afterPersist P C safe, pending = []\<rparr>)"

definition absorb :: "World \<Rightarrow> task list \<Rightarrow> Outcome \<Rightarrow> World" where
  "absorb w ts r =
     w\<lparr>store := after r, tasks := ts @ pending r, trace := trace w @ emitted r\<rparr>"

fun is_BcListen :: "event \<Rightarrow> bool" where
  "is_BcListen (BcListen d s) = True"
| "is_BcListen e = False"

fun step :: "Platform \<Rightarrow> Closure \<Rightarrow> World \<Rightarrow> action \<Rightarrow> World" where
  "step P C w Hydrate =
     (let r = hydrate P C (store w)
      in (absorb w (tasks w) r)
           \<lparr>subscribed := (subscribed w \<or> list_ex is_BcListen (emitted r))\<rparr>)"
| "step P C w (SetValue next) = absorb w (tasks w) (setValue P C (store w) next)"
| "step P C w (AddListener l) =
     w\<lparr>store := (store w)\<lparr>listeners :=
          (if l \<in> set (listeners (store w)) then listeners (store w)
           else listeners (store w) @ [l])\<rparr>\<rparr>"
| "step P C w (DeleteListener l) =
     w\<lparr>store := (store w)\<lparr>listeners := removeAll l (listeners (store w))\<rparr>\<rparr>"
| "step P C w (Resume i got) =
     (if i < length (tasks w)
      then absorb w (take i (tasks w) @ drop (Suc i) (tasks w))
             (resume P C (store w) (tasks w ! i) got)
      else w)"
| "step P C w (Deliver d) =
     (if subscribed w then absorb w (tasks w) (handler C (store w) d) else w)"

text \<open>The worlds a sequence of actions passes through, the first one included.\<close>

fun trajectory :: "Platform \<Rightarrow> Closure \<Rightarrow> World \<Rightarrow> action list \<Rightarrow> World list" where
  "trajectory P C w [] = [w]"
| "trajectory P C w (a # as) = w # trajectory P C (step P C w a) as"

definition run :: "Platform \<Rightarrow> Closure \<Rightarrow> World \<Rightarrow> action list \<Rightarrow> World" where
  "run P C w as = last (trajectory P C w as)"

text \<open>The state \<open>getStore\<close> creates, and the world of a record just created.\<close>

definition newState :: "jsval \<Rightarrow> StoreState" where
  "newState initial =
     \<lparr>value' = JUndefined, repairTo = initial, hydrated = False, listeners = []\<rparr>"

definition newWorld :: "jsval \<Rightarrow> World" where
  "newWorld initial = \<lparr>store = newState initial, tasks = [], subscribed = False, trace = []\<rparr>"

section \<open>The registry (getStore)\<close>

text \<open>
  The module-level \<open>Map\<close> from registry keys to store objects. A store object has an
  identity: it is a reference into the heap of objects created so far, and two requests
  yield the same record exactly when they yield the same reference.
\<close>

record Registry =
  stores :: "string \<rightharpoonup> nat"
  heap :: "(Closure \<times> StoreState) list"

definition emptyRegistry :: Registry where
  "emptyRegistry = \<lparr>stores = Map.empty, heap = []\<rparr>"

definition getStore ::
  "Registry \<Rightarrow> string \<Rightarrow> jsval \<Rightarrow> (jsval \<Rightarrow> bool) \<Rightarrow> (jsval \<Rightarrow> jsval \<Rightarrow> bool) \<Rightarrow> Ns option
     \<Rightarrow> nat \<times> Registry" where
  "getStore reg k initial isV isE nso =
     (let rk = regKey k (nsOrEmpty nso) in
      case stores reg rk of
        Some r \<Rightarrow> (r, reg)
      | None \<Rightarrow>
          (length (heap reg),
           reg\<lparr>stores := (stores reg)(rk \<mapsto> length (heap reg)),
               heap := heap reg @
                 [(\<lparr>key = k, ns = nso, isValid = isV, isEqual = isE\<rparr>, newState initial)]\<rparr>))"

section \<open>Vocabulary for the properties\<close>

text \<open>
  The value the three write paths call \<open>safe\<close> or \<open>finalVal\<close>:
  \<open>isValid(v) ? v : state.repairTo\<close>.
\<close>

definition repaired :: "Closure \<Rightarrow> StoreState \<Rightarrow> jsval \<Rightarrow> jsval" where
  "repaired C st v = (if isValid C v then v else repairTo st)"

text \<open>A piece of code that changed nothing, called nobody and left nothing suspended.\<close>

definition noop :: "StoreState \<Rightarrow> Outcome" where
  "noop st = \<lparr>after = st, emitted = [], pending = []\<rparr>"

fun is_Call :: "event \<Rightarrow> bool" where
  "is_Call (Call l) = True"
| "is_Call e = False"

fun is_write :: "event \<Rightarrow> bool" where
  "is_write (IdbPut d s k v) = True"
| "is_write (IdbDel d s k) = True"
| "is_write e = False"

fun is_BcPost :: "event \<Rightarrow> bool" where
  "is_BcPost (BcPost d s m) = True"
| "is_BcPost e = False"

fun is_SetValue :: "action \<Rightarrow> bool" where
  "is_SetValue (SetValue v) = True"
| "is_SetValue a = False"

text \<open>
  The contents of the durable stores, by database, store and key, and what the idb-keyval
  calls do to them once they take effect: \<open>set\<close> stores, \<open>del\<close> removes, and \<open>get\<close> of
  a missing key resolves with \<open>undefined\<close>.
\<close>

type_synonym durable = "string \<times> string \<times> string \<rightharpoonup> jsval"

fun applyWrite :: "durable \<Rightarrow> event \<Rightarrow> durable" where
  "applyWrite m (IdbPut d s k v) = m((d, s, k) \<mapsto> v)"
| "applyWrite m (IdbDel d s k) = m((d, s, k) := None)"
| "applyWrite m e = m"

definition readBack :: "durable \<Rightarrow> string \<Rightarrow> string \<Rightarrow> string \<Rightarrow> jsval" where
  "readBack m d s k = (case m (d, s, k) of None \<Rightarrow> JUndefined | Some v \<Rightarrow> v)"

text \<open>A record that has neither been resolved nor started anything.\<close>

definition dormant :: "World \<Rightarrow> bool" where
  "dormant w =
     (value' (store w) = JUndefined \<and> tasks w = [] \<and> \<not> subscribed w \<and> trace w = [])"

text \<open>The current value is the sentinel, or valid, or the repair target.\<close>

definition vetted :: "Closure \<Rightarrow> World \<Rightarrow> bool" where
  "vetted C w =
     (value' (store w) = JUndefined \<or> isValid C (value' (store w))
      \<or> value' (store w) = repairTo (store w))"

section \<open>The record of the README: font-size settings\<close>

text \<open>
  The schema \<open>z.object({ fontSize: z.number().min(10).max(32) })\<close>, the object
  \<open>{ fontSize: n }\<close> at reference \<open>r\<close>, the closure \<open>useLocalDb\<close> builds for the key
  \<open>"settings"\<close> in the default namespace, a browser, a server, and the record once
  resolved to its initial value \<open>{ fontSize: 16 }\<close> with one listener.
\<close>

definition settingsSchema :: "jsval \<Rightarrow> bool" where
  "settingsSchema v =
     (case getProp v ''fontSize'' of JNum n \<Rightarrow> 10 \<le> n \<and> n \<le> 32 | _ \<Rightarrow> False)"

definition fontSize :: "nat \<Rightarrow> int \<Rightarrow> jsval" where
  "fontSize r n = JObj r [(''fontSize'', JNum n)]"

definition settingsClosure :: Closure where
  "settingsClosure =
     \<lparr>key = ''settings'', ns = None,
      isValid = useLocalDb_isValid settingsSchema,
      isEqual = useLocalDb_isEqual deepEqual\<rparr>"

definition browser :: Platform where
  "browser = \<lparr>hasWindow = True, idbStore = True, bcChannel = True\<rparr>"

definition server :: Platform where
  "server = \<lparr>hasWindow = False, idbStore = False, bcChannel = False\<rparr>"

definition settingsState :: "jsval \<Rightarrow> StoreState" where
  "settingsState v =
     \<lparr>value' = v, repairTo = fontSize 1 16, hydrated = True, listeners = [7]\<rparr>"

text \<open>
  Three fault assignments: nothing throws; the one listener throws; \<open>isEqual\<close> throws
  where fast-deep-equal does, on two distinct objects of which the first has an own
  property \<open>valueOf\<close> that is not a function (it calls \<open>a.valueOf()\<close>). The object
  \<open>{ fontSize: 20, valueOf: 1 }\<close> is such an object and satisfies the settings schema.
\<close>

definition noFault :: Faults where
  "noFault =
     \<lparr>validThrows = (\<lambda>v. False), equalThrows = (\<lambda>a b. False),
      listenerThrows = (\<lambda>l. False)\<rparr>"

definition listenerFault :: Faults where
  "listenerFault =
     \<lparr>validThrows = (\<lambda>v. False), equalThrows = (\<lambda>a b. False),
      listenerThrows = (\<lambda>l. l = 7)\<rparr>"

definition equalFault :: Faults where
  "equalFault =
     \<lparr>validThrows = (\<lambda>v. False),
      equalThrows = (\<lambda>a b. \<not> strict_eq a b \<and> composite a \<and> composite b
                             \<and> getProp a ''valueOf'' \<noteq> JUndefined),
      listenerThrows = (\<lambda>l. False)\<rparr>"

definition oddSettings :: jsval where
  "oddSettings = JObj 2 [(''fontSize'', JNum 20), (''valueOf'', JNum 1)]"

text \<open>
  A record whose schema accepts every value, as \<open>z.any()\<close> does, with \<open>null\<close> as its
  initial value; and the current values along a list of worlds.
\<close>

definition anySchema :: "jsval \<Rightarrow> bool" where
  "anySchema v = True"

definition anyClosure :: Closure where
  "anyClosure =
     \<lparr>key = ''settings'', ns = None,
      isValid = useLocalDb_isValid anySchema,
      isEqual = useLocalDb_isEqual deepEqual\<rparr>"

definition currentValues :: "World list \<Rightarrow> jsval list" where
  "currentValues ws = map (\<lambda>w. value' (store w)) ws"

section \<open>The equality contract\<close>

text \<open>
  Claim C8. The equality function that \<open>useLocalDb\<close> hands to the registry coincides,
  on every pair of values and for every deep-equality function, with the relation of the
  specification: equal when identical; otherwise unequal when either side is \<open>null\<close> or
  \<open>undefined\<close>; otherwise deep equality when both are objects; otherwise strict equality.
  The code rejects every falsy operand and every pair with a non-object, where the
  specification falls through to strict equality; the two agree because strict equality
  has already failed at that point.
\<close>

theorem isEqual_matches_spec:
  "useLocalDb_isEqual deq a b = isEqual_spec deq a b"
  by (cases a; cases b; simp add: useLocalDb_isEqual_def isEqual_spec_def absent_def)

theorem isEqual_matches_spec_witness:
  "isEqual_spec deepEqual (fontSize 1 16) (fontSize 2 16)
   \<and> \<not> isEqual_spec deepEqual (fontSize 1 16) (fontSize 2 20)
   \<and> \<not> isEqual_spec deepEqual (JNum 0) (JNum 5)
   \<and> \<not> isEqual_spec deepEqual JNull JUndefined"
  using isEqual_matches_spec [of deepEqual "fontSize 1 16" "fontSize 2 16", symmetric]
    isEqual_matches_spec [of deepEqual "fontSize 1 16" "fontSize 2 20", symmetric]
    isEqual_matches_spec [of deepEqual "JNum 0" "JNum 5", symmetric]
    isEqual_matches_spec [of deepEqual JNull JUndefined, symmetric]
  by (simp add: useLocalDb_isEqual_def fontSize_def)

lemma useLocalDb_isEqual_refl: "a \<noteq> JNaN \<Longrightarrow> useLocalDb_isEqual deq a a"
  by (cases a) (simp_all add: useLocalDb_isEqual_def)

section \<open>The registry\<close>

text \<open>
  What \<open>getStore\<close> does: starting from an empty registry, a second request yields the
  record of the first exactly when the two registry keys are the same string.
\<close>

lemma getStore_same_iff_regKey:
  "fst (getStore (snd (getStore emptyRegistry k1 i1 v1 e1 n1)) k2 i2 v2 e2 n2)
     = fst (getStore emptyRegistry k1 i1 v1 e1 n1)
   \<longleftrightarrow> regKey k2 (nsOrEmpty n2) = regKey k1 (nsOrEmpty n1)"
  by (simp add: getStore_def emptyRegistry_def Let_def)

text \<open>
  Claim C1. Two requests should yield the same record exactly when database name, store
  name and key are equal. The registry key joins the three with \<open>/\<close> and \<open>|\<close> and escapes
  neither, so distinct identities can have the same registry key: the request for key
  \<open>k\<close> in database \<open>a\<close>, store \<open>b/c\<close> is answered with the record created for key \<open>k\<close>
  in database \<open>a/b\<close>, store \<open>c\<close>.
\<close>

theorem getStore_shares_record_across_identities:
  "fst (getStore
          (snd (getStore emptyRegistry ''k'' JNull (\<lambda>v. True) strict_eq
                  (Some \<lparr>dbName = Some ''a/b'', storeName = Some ''c''\<rparr>)))
          ''k'' JNull (\<lambda>v. True) strict_eq
          (Some \<lparr>dbName = Some ''a'', storeName = Some ''b/c''\<rparr>))
   = fst (getStore emptyRegistry ''k'' JNull (\<lambda>v. True) strict_eq
            (Some \<lparr>dbName = Some ''a/b'', storeName = Some ''c''\<rparr>))
   \<and> (''a/b'', ''c'', ''k'') \<noteq> (''a'', ''b/c'', ''k'')"
  by (simp add: getStore_def emptyRegistry_def regKey_def nsOrEmpty_def nsDb_def nsSt_def)

section \<open>Facts about the calls a piece of code makes\<close>

lemmas op_defs = setValue_def hydrate_def hydrateLoaded_def hydrateWritten_def handler_def
  notify_def persist_def idbSet_def idbGet_def afterPersist_def getBroadcastChannel_def
  resume_def noop_def repaired_def Let_def

lemmas settings_defs = settingsClosure_def settingsState_def settingsSchema_def fontSize_def
  browser_def server_def useLocalDb_isValid_def useLocalDb_isEqual_def repaired_def

lemma persist_no_Call: "filter is_Call (persist P C v) = []"
  by (simp add: persist_def idbSet_def)

lemma persist_length: "length (persist P C v) \<le> 1"
  by (simp add: persist_def idbSet_def)

lemma afterPersist_length: "length (afterPersist P C v) \<le> 1"
  by (simp add: afterPersist_def)

lemma notify_only_Call: "filter is_Call (map Call ls) = map Call ls"
  by (induction ls) auto

lemma notify_no_write: "filter is_write (map Call ls) = []"
  by (induction ls) auto

lemma notify_no_BcPost: "filter is_BcPost (map Call ls) = []"
  by (induction ls) auto

lemma applyWrite_notify: "foldl applyWrite m (map Call ls) = m"
  by (induction ls) auto

section \<open>setValue\<close>

text \<open>
  Claim C5. When the repaired form of \<open>x\<close> is equal, under the record's equality, to the
  current value, \<open>setValue(x)\<close> changes nothing, notifies nobody and issues neither a write
  nor a broadcast. Hence, when a first \<open>setValue(x)\<close> changes the state and the repaired
  form of \<open>x'\<close> is equal to that of \<open>x\<close>, the second call \<open>setValue(x')\<close> is such a no-op:
  the two calls together invoke every listener exactly once, issue at most one write and
  leave exactly one suspended block, which posts at most one message.
\<close>

theorem setValue_noop_when_equal:
  "(isEqual C (value' st) (repaired C st x) \<longrightarrow> setValue P C st x = noop st)
   \<and> (\<not> isEqual C (value' st) (repaired C st x)
        \<and> isEqual C (repaired C st x) (repaired C st x') \<longrightarrow>
        setValue P C (after (setValue P C st x)) x' = noop (after (setValue P C st x))
        \<and> filter is_Call (emitted (setValue P C st x)
             @ emitted (setValue P C (after (setValue P C st x)) x')) = map Call (listeners st)
        \<and> length (filter is_write (emitted (setValue P C st x)
             @ emitted (setValue P C (after (setValue P C st x)) x'))) \<le> 1
        \<and> pending (setValue P C st x) @ pending (setValue P C (after (setValue P C st x)) x')
             = [AwaitPersist (repaired C st x)]
        \<and> length (afterPersist P C (repaired C st x)) \<le> 1)"
proof (intro conjI impI)
  assume "isEqual C (value' st) (repaired C st x)"
  then show "setValue P C st x = noop st"
    by (simp add: setValue_def repaired_def noop_def Let_def)
next
  assume h: "\<not> isEqual C (value' st) (repaired C st x)
    \<and> isEqual C (repaired C st x) (repaired C st x')"
  have r1: "setValue P C st x =
      \<lparr>after = st\<lparr>value' := repaired C st x\<rparr>,
       emitted = persist P C (repaired C st x) @ map Call (listeners st),
       pending = [AwaitPersist (repaired C st x)]\<rparr>"
    using h by (simp add: setValue_def repaired_def notify_def Let_def)
  have r2: "setValue P C (st\<lparr>value' := repaired C st x\<rparr>) x'
      = noop (st\<lparr>value' := repaired C st x\<rparr>)"
    using h by (auto simp: setValue_def repaired_def noop_def Let_def split: if_splits)
  show "setValue P C (after (setValue P C st x)) x' = noop (after (setValue P C st x))"
    by (simp add: r1 r2)
  show "filter is_Call (emitted (setValue P C st x)
      @ emitted (setValue P C (after (setValue P C st x)) x')) = map Call (listeners st)"
    by (simp add: r1 r2 noop_def persist_no_Call notify_only_Call)
  have "length (filter is_write (persist P C (repaired C st x))) \<le> 1"
    using persist_length [of P C "repaired C st x"]
      length_filter_le [of is_write "persist P C (repaired C st x)"]
    by linarith
  then show "length (filter is_write (emitted (setValue P C st x)
      @ emitted (setValue P C (after (setValue P C st x)) x'))) \<le> 1"
    by (simp add: r1 r2 noop_def notify_no_write)
  show "pending (setValue P C st x) @ pending (setValue P C (after (setValue P C st x)) x')
      = [AwaitPersist (repaired C st x)]"
    by (simp add: r1 r2 noop_def)
  show "length (afterPersist P C (repaired C st x)) \<le> 1"
    by (rule afterPersist_length)
qed

theorem setValue_noop_when_equal_witness:
  "isEqual settingsClosure (value' (settingsState (fontSize 1 16)))
     (repaired settingsClosure (settingsState (fontSize 1 16)) (fontSize 2 16))
   \<and> setValue browser settingsClosure (settingsState (fontSize 1 16)) (fontSize 2 16)
       = noop (settingsState (fontSize 1 16))
   \<and> \<not> isEqual settingsClosure (value' (settingsState (fontSize 1 16)))
         (repaired settingsClosure (settingsState (fontSize 1 16)) (fontSize 3 20))
   \<and> isEqual settingsClosure
       (repaired settingsClosure (settingsState (fontSize 1 16)) (fontSize 3 20))
       (repaired settingsClosure (settingsState (fontSize 1 16)) (fontSize 4 20))
   \<and> setValue browser settingsClosure
       (after (setValue browser settingsClosure (settingsState (fontSize 1 16)) (fontSize 3 20)))
       (fontSize 4 20)
       = noop (after (setValue browser settingsClosure (settingsState (fontSize 1 16))
                        (fontSize 3 20)))"
  using setValue_noop_when_equal [where C = settingsClosure and P = browser
      and st = "settingsState (fontSize 1 16)" and x = "fontSize 2 16" and x' = "fontSize 2 16"]
    setValue_noop_when_equal [where C = settingsClosure and P = browser
      and st = "settingsState (fontSize 1 16)" and x = "fontSize 3 20" and x' = "fontSize 4 20"]
  by (simp add: settings_defs)

lemma notifyE_quiet:
  "\<forall>l \<in> set ls. \<not> listenerThrows F l \<Longrightarrow> notifyE F ls = (map Call ls, None)"
  by (induction ls) auto

lemma notifyE_throws:
  "\<exists>l \<in> set ls. listenerThrows F l \<Longrightarrow> snd (notifyE F ls) \<noteq> None"
  by (induction ls) auto

text \<open>When nothing that is called throws, \<open>setValueE\<close> is \<open>setValue\<close>.\<close>

lemma setValueE_no_fault:
  assumes "\<not> validThrows F next"
    and "\<not> equalThrows F (value' st) (repaired C st next)"
    and "isEqual C (value' st) (repaired C st next)
         \<or> (\<forall>l \<in> set (listeners st). \<not> listenerThrows F l)"
  shows "setValueE F P C st next = (setValue P C st next, None)"
  using assms
  by (auto simp: setValueE_def setValue_def repaired_def notify_def notifyE_quiet Let_def)

text \<open>
  Claim C4, as the code has it. Let \<open>v\<close> fail validation. If the calls \<open>setValue(v)\<close>
  makes return without throwing (\<open>isValid\<close> on \<open>v\<close>, \<open>isEqual\<close> on the current value and
  the repair target, and, when the value changes, every listener), then it raises no error
  and is the run described next; what \<open>isValid\<close> or \<open>isEqual\<close> throws reaches the caller
  with the record untouched, and what a listener throws reaches the caller after the repair
  target has been assigned. In the run without a throw the current value is left equal to
  the repair target: the call assigns the repair target, or, when the current value already
  equals the repair target under the record's equality, it leaves the record untouched. The
  current value is never \<open>v\<close>, unless \<open>v\<close> is the repair target or was the current value
  already. Every write the call issues is the write of the repair target (a delete when
  the repair target is \<open>null\<close>); when the value changes and a store is available, that
  write is issued, and once it has taken effect the key holds the repair target, so that a
  read, with the default applied as \<open>hydrate\<close> applies it, yields the repair target.
\<close>

theorem setValue_repairs_invalid:
  assumes "\<not> isValid C v"
  shows "(\<not> validThrows F v \<and> \<not> equalThrows F (value' st) (repairTo st)
          \<and> (isEqual C (value' st) (repairTo st)
               \<or> (\<forall>l \<in> set (listeners st). \<not> listenerThrows F l)) \<longrightarrow>
         setValueE F P C st v = (setValue P C st v, None))
    \<and> (validThrows F v \<longrightarrow> setValueE F P C st v = (noop st, Some FromIsValid))
    \<and> (\<not> validThrows F v \<and> equalThrows F (value' st) (repairTo st) \<longrightarrow>
         setValueE F P C st v = (noop st, Some FromIsEqual))
    \<and> (\<not> validThrows F v \<and> \<not> equalThrows F (value' st) (repairTo st)
          \<and> \<not> isEqual C (value' st) (repairTo st)
          \<and> (\<exists>l \<in> set (listeners st). listenerThrows F l) \<longrightarrow>
         snd (setValueE F P C st v) \<noteq> None
         \<and> after (fst (setValueE F P C st v)) = st\<lparr>value' := repairTo st\<rparr>)
    \<and> (isEqual C (value' st) (repairTo st) \<longrightarrow> setValue P C st v = noop st)
    \<and> (\<not> isEqual C (value' st) (repairTo st) \<longrightarrow>
         setValue P C st v =
           \<lparr>after = st\<lparr>value' := repairTo st\<rparr>,
            emitted = idbSet P (key C) (repairTo st) (ns C) @ map Call (listeners st),
            pending = [AwaitPersist (repairTo st)]\<rparr>)
    \<and> (value' (after (setValue P C st v)) = v \<longrightarrow> v = repairTo st \<or> v = value' st)
    \<and> (\<forall>e \<in> set (emitted (setValue P C st v)). is_write e \<longrightarrow>
          e = (if repairTo st = JNull
               then IdbDel (nsDb (nsOrEmpty (ns C))) (nsSt (nsOrEmpty (ns C))) (key C)
               else IdbPut (nsDb (nsOrEmpty (ns C))) (nsSt (nsOrEmpty (ns C))) (key C)
                      (repairTo st)))
    \<and> (\<not> isEqual C (value' st) (repairTo st) \<and> idbStore P \<longrightarrow>
         foldl applyWrite m (emitted (setValue P C st v))
             (nsDb (nsOrEmpty (ns C)), nsSt (nsOrEmpty (ns C)), key C)
           = (if repairTo st = JNull then None else Some (repairTo st))
         \<and> nullish (readBack (foldl applyWrite m (emitted (setValue P C st v)))
                      (nsDb (nsOrEmpty (ns C))) (nsSt (nsOrEmpty (ns C))) (key C))
             (repairTo st)
           = repairTo st)"
proof (intro conjI impI ballI)
  assume "\<not> validThrows F v \<and> \<not> equalThrows F (value' st) (repairTo st)
          \<and> (isEqual C (value' st) (repairTo st)
               \<or> (\<forall>l \<in> set (listeners st). \<not> listenerThrows F l))"
  then show "setValueE F P C st v = (setValue P C st v, None)"
    using assms
    by (auto simp: setValueE_def setValue_def notify_def notifyE_quiet Let_def)
next
  assume "validThrows F v"
  then show "setValueE F P C st v = (noop st, Some FromIsValid)"
    by (simp add: setValueE_def noop_def)
next
  assume "\<not> validThrows F v \<and> equalThrows F (value' st) (repairTo st)"
  then show "setValueE F P C st v = (noop st, Some FromIsEqual)"
    using assms by (simp add: setValueE_def noop_def Let_def)
next
  assume h: "\<not> validThrows F v \<and> \<not> equalThrows F (value' st) (repairTo st)
          \<and> \<not> isEqual C (value' st) (repairTo st)
          \<and> (\<exists>l \<in> set (listeners st). listenerThrows F l)"
  then have t: "snd (notifyE F (listeners st)) \<noteq> None"
    using notifyE_throws by blast
  show "snd (setValueE F P C st v) \<noteq> None"
    using assms h t by (simp add: setValueE_def Let_def)
  show "after (fst (setValueE F P C st v)) = st\<lparr>value' := repairTo st\<rparr>"
    using assms h by (simp add: setValueE_def Let_def)
next
  assume "isEqual C (value' st) (repairTo st)"
  then show "setValue P C st v = noop st"
    using assms by (simp add: setValue_def noop_def Let_def)
next
  assume "\<not> isEqual C (value' st) (repairTo st)"
  then show "setValue P C st v =
      \<lparr>after = st\<lparr>value' := repairTo st\<rparr>,
       emitted = idbSet P (key C) (repairTo st) (ns C) @ map Call (listeners st),
       pending = [AwaitPersist (repairTo st)]\<rparr>"
    using assms by (simp add: setValue_def notify_def persist_def Let_def)
next
  assume "value' (after (setValue P C st v)) = v"
  then show "v = repairTo st \<or> v = value' st"
    using assms by (simp add: setValue_def Let_def split: if_splits)
next
  fix e
  assume "e \<in> set (emitted (setValue P C st v))" and "is_write e"
  then show "e = (if repairTo st = JNull
      then IdbDel (nsDb (nsOrEmpty (ns C))) (nsSt (nsOrEmpty (ns C))) (key C)
      else IdbPut (nsDb (nsOrEmpty (ns C))) (nsSt (nsOrEmpty (ns C))) (key C) (repairTo st))"
    using assms
    by (auto simp: setValue_def notify_def persist_def idbSet_def Let_def split: if_splits)
next
  assume h: "\<not> isEqual C (value' st) (repairTo st) \<and> idbStore P"
  have e: "emitted (setValue P C st v)
      = idbSet P (key C) (repairTo st) (ns C) @ map Call (listeners st)"
    using assms h by (simp add: setValue_def notify_def persist_def Let_def)
  show "foldl applyWrite m (emitted (setValue P C st v))
      (nsDb (nsOrEmpty (ns C)), nsSt (nsOrEmpty (ns C)), key C)
      = (if repairTo st = JNull then None else Some (repairTo st))"
    using h by (simp add: e idbSet_def applyWrite_notify)
  show "nullish (readBack (foldl applyWrite m (emitted (setValue P C st v)))
      (nsDb (nsOrEmpty (ns C))) (nsSt (nsOrEmpty (ns C))) (key C)) (repairTo st)
      = repairTo st"
    using h by (simp add: e idbSet_def applyWrite_notify readBack_def nullish_def)
qed

theorem setValue_repairs_invalid_witness:
  "\<not> isValid settingsClosure (fontSize 5 999)
   \<and> \<not> validThrows noFault (fontSize 5 999)
   \<and> \<not> equalThrows noFault (value' (settingsState (fontSize 3 20)))
         (repairTo (settingsState (fontSize 3 20)))
   \<and> \<not> listenerThrows noFault 7
   \<and> setValueE noFault browser settingsClosure (settingsState (fontSize 3 20)) (fontSize 5 999)
       = (\<lparr>after = settingsState (fontSize 1 16),
           emitted = [IdbPut ''local-db'' ''local-db'' ''settings'' (fontSize 1 16), Call 7],
           pending = [AwaitPersist (fontSize 1 16)]\<rparr>, None)
   \<and> \<not> isEqual settingsClosure (value' (settingsState (fontSize 3 20)))
         (repairTo (settingsState (fontSize 3 20)))
   \<and> idbStore browser
   \<and> setValue browser settingsClosure (settingsState (fontSize 3 20)) (fontSize 5 999)
       = \<lparr>after = settingsState (fontSize 1 16),
          emitted = [IdbPut ''local-db'' ''local-db'' ''settings'' (fontSize 1 16), Call 7],
          pending = [AwaitPersist (fontSize 1 16)]\<rparr>
   \<and> isEqual settingsClosure (value' (settingsState (fontSize 2 16)))
       (repairTo (settingsState (fontSize 2 16)))
   \<and> setValue browser settingsClosure (settingsState (fontSize 2 16)) (fontSize 5 999)
       = noop (settingsState (fontSize 2 16))
   \<and> equalThrows equalFault (value' (settingsState oddSettings))
       (repairTo (settingsState oddSettings))
   \<and> setValueE equalFault browser settingsClosure (settingsState oddSettings) (fontSize 5 999)
       = (noop (settingsState oddSettings), Some FromIsEqual)
   \<and> listenerThrows listenerFault 7
   \<and> snd (setValueE listenerFault browser settingsClosure (settingsState (fontSize 3 20))
            (fontSize 5 999)) \<noteq> None"
proof -
  have h: "\<not> isValid settingsClosure (fontSize 5 999)"
    by (simp add: settings_defs)
  have qe: "\<not> validThrows equalFault (fontSize 5 999)
      \<and> equalThrows equalFault (value' (settingsState oddSettings))
          (repairTo (settingsState oddSettings))"
    by (simp add: equalFault_def settingsState_def oddSettings_def fontSize_def)
  have lt: "listenerThrows listenerFault 7"
    by (simp add: listenerFault_def)
  have ql: "\<not> validThrows listenerFault (fontSize 5 999)
      \<and> \<not> equalThrows listenerFault (value' (settingsState (fontSize 3 20)))
            (repairTo (settingsState (fontSize 3 20)))
      \<and> \<not> isEqual settingsClosure (value' (settingsState (fontSize 3 20)))
            (repairTo (settingsState (fontSize 3 20)))
      \<and> (\<exists>l \<in> set (listeners (settingsState (fontSize 3 20))). listenerThrows listenerFault l)"
    by (simp add: listenerFault_def settings_defs)
  note eqthrow = setValue_repairs_invalid [OF h, where P = browser and m = Map.empty
      and F = equalFault and st = "settingsState oddSettings",
      THEN conjunct2, THEN conjunct2, THEN conjunct1, rule_format, OF qe]
  note lthrow = setValue_repairs_invalid [OF h, where P = browser and m = Map.empty
      and F = listenerFault and st = "settingsState (fontSize 3 20)",
      THEN conjunct2, THEN conjunct2, THEN conjunct2, THEN conjunct1, rule_format, OF ql,
      THEN conjunct1]
  have ne: "\<not> isEqual settingsClosure (value' (settingsState (fontSize 3 20)))
      (repairTo (settingsState (fontSize 3 20)))"
    by (simp add: settings_defs)
  have eq: "isEqual settingsClosure (value' (settingsState (fontSize 2 16)))
      (repairTo (settingsState (fontSize 2 16)))"
    by (simp add: settings_defs)
  have b: "idbStore browser"
    by (simp add: browser_def)
  have f: "\<not> validThrows noFault (fontSize 5 999)
      \<and> \<not> equalThrows noFault (value' (settingsState (fontSize 3 20)))
            (repairTo (settingsState (fontSize 3 20)))
      \<and> \<not> listenerThrows noFault 7"
    by (simp add: noFault_def)
  have q: "\<not> validThrows noFault (fontSize 5 999)
      \<and> \<not> equalThrows noFault (value' (settingsState (fontSize 3 20)))
            (repairTo (settingsState (fontSize 3 20)))
      \<and> (isEqual settingsClosure (value' (settingsState (fontSize 3 20)))
             (repairTo (settingsState (fontSize 3 20)))
           \<or> (\<forall>l \<in> set (listeners (settingsState (fontSize 3 20))).
                 \<not> listenerThrows noFault l))"
    by (simp add: noFault_def)
  note quiet = setValue_repairs_invalid [OF h, where P = browser and m = Map.empty
      and F = noFault and st = "settingsState (fontSize 3 20)",
      THEN conjunct1, rule_format, OF q]
  note changed = setValue_repairs_invalid [OF h, where P = browser and m = Map.empty
      and F = noFault and st = "settingsState (fontSize 3 20)",
      THEN conjunct2, THEN conjunct2, THEN conjunct2, THEN conjunct2, THEN conjunct2,
      THEN conjunct1, rule_format, OF ne]
  note same = setValue_repairs_invalid [OF h, where P = browser and m = Map.empty
      and F = noFault and st = "settingsState (fontSize 2 16)",
      THEN conjunct2, THEN conjunct2, THEN conjunct2, THEN conjunct2,
      THEN conjunct1, rule_format, OF eq]
  have c: "setValue browser settingsClosure (settingsState (fontSize 3 20)) (fontSize 5 999)
       = \<lparr>after = settingsState (fontSize 1 16),
          emitted = [IdbPut ''local-db'' ''local-db'' ''settings'' (fontSize 1 16), Call 7],
          pending = [AwaitPersist (fontSize 1 16)]\<rparr>"
    unfolding changed
    by (simp add: settingsClosure_def settingsState_def fontSize_def browser_def idbSet_def
        nsDb_def nsSt_def nsOrEmpty_def DEFAULT_DB_def DEFAULT_STORE_def)
  have e: "setValueE noFault browser settingsClosure (settingsState (fontSize 3 20))
        (fontSize 5 999)
       = (\<lparr>after = settingsState (fontSize 1 16),
           emitted = [IdbPut ''local-db'' ''local-db'' ''settings'' (fontSize 1 16), Call 7],
           pending = [AwaitPersist (fontSize 1 16)]\<rparr>, None)"
    using quiet c by simp
  from h f e ne b c eq same qe eqthrow lt lthrow show ?thesis
    by blast
qed

text \<open>
  The claim as written, that \<open>setValue(v)\<close> raises no error to the caller and leaves the
  current value equal to the repair target, fails. On the record holding
  \<open>{ fontSize: 20, valueOf: 1 }\<close>, \<open>setValue({ fontSize: 999 })\<close> reaches \<open>isEqual\<close>, whose
  deep comparison throws: the error reaches the caller and the value is left as it was.
  On the record holding \<open>{ fontSize: 20 }\<close> with a listener that throws, the repair target
  is assigned and its write issued, and the listener's error reaches the caller.
\<close>

theorem setValue_error_counterexample:
  "\<not> isValid settingsClosure (fontSize 5 999)
   \<and> isValid settingsClosure oddSettings
   \<and> setValueE equalFault browser settingsClosure (settingsState oddSettings) (fontSize 5 999)
       = (\<lparr>after = settingsState oddSettings, emitted = [], pending = []\<rparr>, Some FromIsEqual)
   \<and> setValueE listenerFault browser settingsClosure (settingsState (fontSize 3 20))
        (fontSize 5 999)
       = (\<lparr>after = settingsState (fontSize 1 16),
           emitted = [IdbPut ''local-db'' ''local-db'' ''settings'' (fontSize 1 16), Call 7],
           pending = [AwaitPersist (fontSize 1 16)]\<rparr>, Some (FromListener 7))"
  by (simp add: settings_defs oddSettings_def equalFault_def listenerFault_def setValueE_def
      persist_def idbSet_def nsDb_def nsSt_def nsOrEmpty_def DEFAULT_DB_def DEFAULT_STORE_def
      Let_def)

text \<open>
  Claim C3, as the code has it. A call of \<open>setValue\<close> that changes the state first starts
  its async block, which runs through \<open>persist\<close> and \<open>idbSet\<close> and calls \<open>set\<close> or \<open>del\<close>
  on the durable store before it suspends; only then does \<open>notify()\<close> invoke the
  listeners, all of them within the call. No message is posted within the call: the
  \<open>postMessage\<close> belongs to the suspended block and is issued when that block is resumed,
  hence after every listener has been invoked.
\<close>

theorem setValue_order:
  assumes "\<not> isEqual C (value' st) (repaired C st x)"
  shows "emitted (setValue P C st x)
           = (if \<not> idbStore P then []
              else if repaired C st x = JNull
                then [IdbDel (nsDb (nsOrEmpty (ns C))) (nsSt (nsOrEmpty (ns C))) (key C)]
              else [IdbPut (nsDb (nsOrEmpty (ns C))) (nsSt (nsOrEmpty (ns C))) (key C)
                      (repaired C st x)])
             @ map Call (listeners st)
    \<and> filter is_BcPost (emitted (setValue P C st x)) = []
    \<and> pending (setValue P C st x) = [AwaitPersist (repaired C st x)]
    \<and> resume P C st' (AwaitPersist (repaired C st x)) g
        = \<lparr>after = st',
           emitted = (if getBroadcastChannel P
              then [BcPost (nsDb (nsOrEmpty (ns C))) (nsSt (nsOrEmpty (ns C)))
                      \<lparr>msg_key = key C, msg_value = repaired C st x,
                       msg_removed = (repaired C st x = JNull)\<rparr>]
              else []),
           pending = []\<rparr>"
  using assms
  by (auto simp: setValue_def repaired_def notify_def persist_def idbSet_def resume_def
      afterPersist_def notify_no_BcPost Let_def)

theorem setValue_order_witness:
  "\<not> isEqual settingsClosure (value' (settingsState (fontSize 1 16)))
       (repaired settingsClosure (settingsState (fontSize 1 16)) JNull)
   \<and> emitted (setValue browser settingsClosure (settingsState (fontSize 1 16)) JNull)
       = [IdbDel ''local-db'' ''local-db'' ''settings'', Call 7]
   \<and> pending (setValue browser settingsClosure (settingsState (fontSize 1 16)) JNull)
       = [AwaitPersist JNull]
   \<and> resume browser settingsClosure (settingsState JNull) (AwaitPersist JNull) JUndefined
       = \<lparr>after = settingsState JNull,
          emitted = [BcPost ''local-db'' ''local-db''
                       \<lparr>msg_key = ''settings'', msg_value = JNull, msg_removed = True\<rparr>],
          pending = []\<rparr>"
proof -
  have h: "\<not> isEqual settingsClosure (value' (settingsState (fontSize 1 16)))
       (repaired settingsClosure (settingsState (fontSize 1 16)) JNull)"
    by (simp add: settings_defs)
  show ?thesis
    using h setValue_order [OF h, where P = browser and st' = "settingsState JNull"
        and g = JUndefined]
    by (simp add: settings_defs getBroadcastChannel_def nsDb_def nsSt_def nsOrEmpty_def
        DEFAULT_DB_def DEFAULT_STORE_def)
qed

text \<open>
  The claim as written, that the write is initiated only after all listeners have been
  invoked, fails: with one listener, \<open>setValue({ fontSize: 20 })\<close> on the record holding
  \<open>{ fontSize: 16 }\<close> calls \<open>set\<close> on the durable store first and the listener second.
\<close>

theorem setValue_order_counterexample:
  "setValue browser settingsClosure (settingsState (fontSize 1 16)) (fontSize 3 20)
   = \<lparr>after = settingsState (fontSize 3 20),
      emitted = [IdbPut ''local-db'' ''local-db'' ''settings'' (fontSize 3 20), Call 7],
      pending = [AwaitPersist (fontSize 3 20)]\<rparr>"
  by (simp add: settings_defs setValue_def notify_def persist_def idbSet_def nsDb_def nsSt_def
      nsOrEmpty_def DEFAULT_DB_def DEFAULT_STORE_def Let_def)

section \<open>hydrate\<close>

lemma step_hydrated: "hydrated (store w) \<Longrightarrow> hydrated (store (step P C w a))"
  by (cases a) (auto simp: absorb_def op_defs split: task.splits)

lemma trajectory_hydrated:
  "hydrated (store w) \<Longrightarrow> \<forall>w' \<in> set (trajectory P C w as). hydrated (store w')"
proof (induction as arbitrary: w)
  case Nil
  then show ?case by simp
next
  case (Cons a as)
  have "hydrated (store (step P C w a))"
    using Cons.prems by (rule step_hydrated)
  then have "\<forall>w' \<in> set (trajectory P C (step P C w a) as). hydrated (store w')"
    by (rule Cons.IH)
  with Cons.prems show ?case by simp
qed

lemma step_dormant:
  "\<not> hasWindow P \<Longrightarrow> \<not> is_SetValue a \<Longrightarrow> dormant w \<Longrightarrow> dormant (step P C w a)"
  by (cases a) (auto simp: dormant_def absorb_def hydrate_def Let_def)

lemma trajectory_dormant:
  "\<not> hasWindow P \<Longrightarrow> \<forall>a \<in> set as. \<not> is_SetValue a \<Longrightarrow> dormant w \<Longrightarrow>
     \<forall>w' \<in> set (trajectory P C w as). dormant w'"
proof (induction as arbitrary: w)
  case Nil
  then show ?case by simp
next
  case (Cons a as)
  have "dormant (step P C w a)"
    using Cons.prems by (simp add: step_dormant)
  moreover have "\<forall>a \<in> set as. \<not> is_SetValue a"
    using Cons.prems by simp
  ultimately have "\<forall>w' \<in> set (trajectory P C (step P C w a) as). dormant w'"
    using Cons.IH Cons.prems(1) by blast
  with Cons.prems show ?case by simp
qed

text \<open>
  Claim C9. \<open>hydrate\<close> is idempotent: a call leaves the flag set; a call that finds the
  flag set changes nothing, calls nobody and starts nothing; and nothing ever clears the
  flag, so every call after the first is such a no-op, whatever happened in between.
  Outside a browser the first call sets the flag and does nothing else. From then on the
  record stays at the hydrating sentinel for as long as nobody calls \<open>setValue\<close>: through
  any sequence of further \<open>hydrate\<close> calls, listener changes, resumptions and deliveries
  the value is \<open>undefined\<close>, no task is suspended, no handler is registered and no call has
  left the repository.
\<close>

theorem hydrate_idempotent:
  "hydrated (after (hydrate P C st))
   \<and> (hydrated st \<longrightarrow> hydrate P C st = noop st)
   \<and> (hydrated (store w) \<longrightarrow> (\<forall>w' \<in> set (trajectory P C w as). hydrated (store w')))
   \<and> (\<not> hasWindow P \<and> \<not> hydrated st \<longrightarrow> hydrate P C st = noop (st\<lparr>hydrated := True\<rparr>))
   \<and> (\<not> hasWindow P \<and> (\<forall>a \<in> set as. \<not> is_SetValue a) \<longrightarrow>
        (\<forall>w' \<in> set (trajectory P C (newWorld initial) as).
           value' (store w') = JUndefined \<and> tasks w' = [] \<and> \<not> subscribed w'
           \<and> trace w' = []))"
proof (intro conjI impI)
  show "hydrated (after (hydrate P C st))"
    by (simp add: hydrate_def)
  show "hydrated st \<Longrightarrow> hydrate P C st = noop st"
    by (simp add: hydrate_def noop_def)
  show "hydrated (store w) \<Longrightarrow> \<forall>w' \<in> set (trajectory P C w as). hydrated (store w')"
    by (rule trajectory_hydrated)
  show "\<not> hasWindow P \<and> \<not> hydrated st \<Longrightarrow> hydrate P C st = noop (st\<lparr>hydrated := True\<rparr>)"
    by (simp add: hydrate_def noop_def)
  assume h: "\<not> hasWindow P \<and> (\<forall>a \<in> set as. \<not> is_SetValue a)"
  have "dormant (newWorld initial)"
    by (simp add: dormant_def newWorld_def newState_def)
  with h have "\<forall>w' \<in> set (trajectory P C (newWorld initial) as). dormant w'"
    using trajectory_dormant by blast
  then show "\<forall>w' \<in> set (trajectory P C (newWorld initial) as).
      value' (store w') = JUndefined \<and> tasks w' = [] \<and> \<not> subscribed w' \<and> trace w' = []"
    by (simp add: dormant_def)
qed

theorem hydrate_idempotent_witness:
  "hydrated (settingsState JNull)
   \<and> hydrate browser settingsClosure (settingsState JNull) = noop (settingsState JNull)
   \<and> hydrated (store (run browser settingsClosure
        \<lparr>store = settingsState JNull, tasks = [], subscribed = True, trace = []\<rparr>
        [SetValue (fontSize 3 20), Hydrate]))
   \<and> \<not> hasWindow server
   \<and> \<not> hydrated (newState (fontSize 1 16))
   \<and> hydrate server settingsClosure (newState (fontSize 1 16))
       = noop ((newState (fontSize 1 16))\<lparr>hydrated := True\<rparr>)
   \<and> value' (store (run server settingsClosure (newWorld (fontSize 1 16))
        [Hydrate, AddListener 7, Hydrate, Resume 0 (fontSize 3 20),
         Deliver (JObj 9 [(''key'', JStr ''settings''), (''value'', fontSize 3 20)])]))
       = JUndefined"
proof -
  let ?w = "\<lparr>store = settingsState JNull, tasks = [], subscribed = True, trace = []\<rparr>"
  let ?as = "[SetValue (fontSize 3 20), Hydrate]"
  let ?bs = "[Hydrate, AddListener 7, Hydrate, Resume 0 (fontSize 3 20),
         Deliver (JObj 9 [(''key'', JStr ''settings''), (''value'', fontSize 3 20)])]"
  note t1 = hydrate_idempotent [where P = browser and C = settingsClosure
      and st = "settingsState JNull" and w = ?w and as = ?as and initial = JNull]
  note t2 = hydrate_idempotent [where P = server and C = settingsClosure
      and st = "newState (fontSize 1 16)" and w = ?w and as = ?bs and initial = "fontSize 1 16"]
  have a: "hydrated (settingsState JNull)"
    by (simp add: settingsState_def)
  have b: "\<not> hasWindow server \<and> \<not> hydrated (newState (fontSize 1 16))"
    by (simp add: server_def newState_def)
  have c: "\<not> hasWindow server \<and> (\<forall>a \<in> set ?bs. \<not> is_SetValue a)"
    by (simp add: server_def)
  have in1: "run browser settingsClosure ?w ?as \<in> set (trajectory browser settingsClosure ?w ?as)"
    unfolding run_def by (rule last_in_set) simp
  have in2: "run server settingsClosure (newWorld (fontSize 1 16)) ?bs
      \<in> set (trajectory server settingsClosure (newWorld (fontSize 1 16)) ?bs)"
    unfolding run_def by (rule last_in_set) simp
  have 1: "hydrate browser settingsClosure (settingsState JNull) = noop (settingsState JNull)"
    using t1 a by blast
  have w: "hydrated (store ?w)"
    by (simp add: settingsState_def)
  have 2: "hydrated (store (run browser settingsClosure ?w ?as))"
    using t1 [THEN conjunct2, THEN conjunct2, THEN conjunct1, rule_format, OF w in1] .
  have 3: "hydrate server settingsClosure (newState (fontSize 1 16))
       = noop ((newState (fontSize 1 16))\<lparr>hydrated := True\<rparr>)"
    using t2 b by blast
  have 4: "value' (store (run server settingsClosure (newWorld (fontSize 1 16)) ?bs)) = JUndefined"
    using t2 [THEN conjunct2, THEN conjunct2, THEN conjunct2, THEN conjunct2, rule_format,
        OF c in2] by blast
  from a b 1 2 3 4 show ?thesis
    by blast
qed

text \<open>
  Claim C2, as the code has it. When the read has resolved, \<open>hydrate\<close> assigns the repaired
  form of what was read, an absent read (\<open>undefined\<close> or \<open>null\<close>) counting as the repair
  target. It writes back exactly when that defaulted value differs, under the record's
  equality, from the value assigned, and then it issues the one write of the assigned value
  (if a store is available) and notifies after the write has settled; otherwise it
  notifies at once. In particular, when the store holds nothing for the key, the current
  value becomes the repair target, and if the repair target equals itself under the
  record's equality, nothing is written back.
\<close>

theorem hydrateLoaded_write_back:
  "value' (after (hydrateLoaded P C st got)) = repaired C st (nullish got (repairTo st))
   \<and> (isEqual C (nullish got (repairTo st)) (repaired C st (nullish got (repairTo st))) \<longrightarrow>
        emitted (hydrateLoaded P C st got) = map Call (listeners st)
        \<and> pending (hydrateLoaded P C st got) = [])
   \<and> (\<not> isEqual C (nullish got (repairTo st)) (repaired C st (nullish got (repairTo st))) \<longrightarrow>
        emitted (hydrateLoaded P C st got)
          = idbSet P (key C) (repaired C st (nullish got (repairTo st))) (ns C)
        \<and> pending (hydrateLoaded P C st got) = [AwaitWriteBack])
   \<and> (filter is_write (emitted (hydrateLoaded P C st got)) \<noteq> [] \<longleftrightarrow>
        idbStore P
        \<and> \<not> isEqual C (nullish got (repairTo st)) (repaired C st (nullish got (repairTo st))))
   \<and> length (filter is_write (emitted (hydrateLoaded P C st got))) \<le> 1
   \<and> (absent got \<longrightarrow>
        value' (after (hydrateLoaded P C st got)) = repairTo st
        \<and> (isEqual C (repairTo st) (repairTo st) \<longrightarrow>
             emitted (hydrateLoaded P C st got) = map Call (listeners st)
             \<and> pending (hydrateLoaded P C st got) = []))"
proof -
  let ?p = "nullish got (repairTo st)"
  let ?f = "repaired C st ?p"
  have eq: "isEqual C ?p ?f \<Longrightarrow>
      hydrateLoaded P C st got
        = \<lparr>after = st\<lparr>value' := ?f\<rparr>, emitted = map Call (listeners st), pending = []\<rparr>"
    by (simp add: hydrateLoaded_def repaired_def notify_def Let_def)
  have ne: "\<not> isEqual C ?p ?f \<Longrightarrow>
      hydrateLoaded P C st got
        = \<lparr>after = st\<lparr>value' := ?f\<rparr>, emitted = idbSet P (key C) ?f (ns C),
           pending = [AwaitWriteBack]\<rparr>"
    by (simp add: hydrateLoaded_def repaired_def persist_def Let_def)
  have ab: "absent got \<Longrightarrow> ?p = repairTo st \<and> ?f = repairTo st"
    by (auto simp: absent_def nullish_def repaired_def)
  have c1: "value' (after (hydrateLoaded P C st got)) = ?f"
    using eq ne by (cases "isEqual C ?p ?f") simp_all
  have c4: "filter is_write (emitted (hydrateLoaded P C st got)) \<noteq> [] \<longleftrightarrow>
      idbStore P \<and> \<not> isEqual C ?p ?f"
    using eq ne by (cases "isEqual C ?p ?f") (simp_all add: notify_no_write idbSet_def)
  have c5: "length (filter is_write (emitted (hydrateLoaded P C st got))) \<le> 1"
    using eq ne by (cases "isEqual C ?p ?f") (simp_all add: notify_no_write idbSet_def)
  have c6: "absent got \<longrightarrow>
        value' (after (hydrateLoaded P C st got)) = repairTo st
        \<and> (isEqual C (repairTo st) (repairTo st) \<longrightarrow>
             emitted (hydrateLoaded P C st got) = map Call (listeners st)
             \<and> pending (hydrateLoaded P C st got) = [])"
    using ab c1 eq by auto
  from c1 c4 c5 c6 eq ne show ?thesis
    by simp
qed

theorem hydrateLoaded_write_back_witness:
  "absent JUndefined
   \<and> isEqual settingsClosure (repairTo (settingsState JUndefined))
       (repairTo (settingsState JUndefined))
   \<and> value' (after (hydrateLoaded browser settingsClosure (settingsState JUndefined) JUndefined))
       = fontSize 1 16
   \<and> emitted (hydrateLoaded browser settingsClosure (settingsState JUndefined) JUndefined)
       = [Call 7]
   \<and> \<not> isEqual settingsClosure
         (nullish (fontSize 5 999) (repairTo (settingsState JUndefined)))
         (repaired settingsClosure (settingsState JUndefined)
            (nullish (fontSize 5 999) (repairTo (settingsState JUndefined))))
   \<and> emitted (hydrateLoaded browser settingsClosure (settingsState JUndefined) (fontSize 5 999))
       = [IdbPut ''local-db'' ''local-db'' ''settings'' (fontSize 1 16)]
   \<and> pending (hydrateLoaded browser settingsClosure (settingsState JUndefined) (fontSize 5 999))
       = [AwaitWriteBack]"
proof -
  note t1 = hydrateLoaded_write_back [where P = browser and C = settingsClosure
      and st = "settingsState JUndefined" and got = JUndefined]
  note t2 = hydrateLoaded_write_back [where P = browser and C = settingsClosure
      and st = "settingsState JUndefined" and got = "fontSize 5 999"]
  have a: "absent JUndefined"
    by (simp add: absent_def)
  have r: "isEqual settingsClosure (repairTo (settingsState JUndefined))
       (repairTo (settingsState JUndefined))"
    by (simp add: settings_defs)
  have ne: "\<not> isEqual settingsClosure
         (nullish (fontSize 5 999) (repairTo (settingsState JUndefined)))
         (repaired settingsClosure (settingsState JUndefined)
            (nullish (fontSize 5 999) (repairTo (settingsState JUndefined))))"
    by (simp add: settings_defs nullish_def)
  have 1: "value' (after (hydrateLoaded browser settingsClosure (settingsState JUndefined)
      JUndefined)) = repairTo (settingsState JUndefined)
      \<and> emitted (hydrateLoaded browser settingsClosure (settingsState JUndefined) JUndefined)
          = map Call (listeners (settingsState JUndefined))"
    using t1 a r by blast
  have 2: "emitted (hydrateLoaded browser settingsClosure (settingsState JUndefined)
      (fontSize 5 999))
      = idbSet browser (key settingsClosure)
          (repaired settingsClosure (settingsState JUndefined)
             (nullish (fontSize 5 999) (repairTo (settingsState JUndefined))))
          (ns settingsClosure)
      \<and> pending (hydrateLoaded browser settingsClosure (settingsState JUndefined)
          (fontSize 5 999)) = [AwaitWriteBack]"
    using t2 ne by blast
  have 3: "repairTo (settingsState JUndefined) = fontSize 1 16
      \<and> map Call (listeners (settingsState JUndefined)) = [Call 7]"
    by (simp add: settingsState_def)
  have 4: "idbSet browser (key settingsClosure)
          (repaired settingsClosure (settingsState JUndefined)
             (nullish (fontSize 5 999) (repairTo (settingsState JUndefined))))
          (ns settingsClosure)
      = [IdbPut ''local-db'' ''local-db'' ''settings'' (fontSize 1 16)]"
    by (simp add: settings_defs nullish_def idbSet_def nsDb_def nsSt_def nsOrEmpty_def
        DEFAULT_DB_def DEFAULT_STORE_def)
  from a r ne 1 2 3 4 show ?thesis
    by simp
qed

text \<open>
  The claim as written, that hydrating a record whose store holds nothing for the key
  writes the repair target back once, fails: for the settings record with the valid
  initial value \<open>{ fontSize: 16 }\<close> and an empty store, the completed load assigns the
  initial value, calls the listener and neither writes nor leaves anything suspended.
\<close>

theorem hydrate_empty_store_counterexample:
  "readBack Map.empty ''local-db'' ''local-db'' ''settings'' = JUndefined
   \<and> isValid settingsClosure (fontSize 1 16)
   \<and> hydrateLoaded browser settingsClosure (settingsState JUndefined) JUndefined
      = \<lparr>after = settingsState (fontSize 1 16), emitted = [Call 7], pending = []\<rparr>"
  by (simp add: readBack_def settings_defs hydrateLoaded_def nullish_def notify_def Let_def)

text \<open>
  With the equality function of \<open>useLocalDb\<close> every repair target but \<open>NaN\<close> equals
  itself, so a load from an empty store never writes back.
\<close>

lemma hydrateLoaded_empty_store_useLocalDb:
  assumes "isEqual C = useLocalDb_isEqual deq" and "repairTo st \<noteq> JNaN" and "absent got"
  shows "hydrateLoaded P C st got
    = \<lparr>after = st\<lparr>value' := repairTo st\<rparr>, emitted = map Call (listeners st),
       pending = []\<rparr>"
  using assms
  by (auto simp: hydrateLoaded_def nullish_def absent_def useLocalDb_isEqual_refl notify_def
      Let_def)

text \<open>
  Claim C10. When the read has resolved, \<open>hydrate\<close> assigns the repaired form of what was
  read without looking at the current value: the outcome is the same whatever value
  \<open>setValue\<close> or a message installed while the read was in flight, and resuming the
  suspended read in any world installs that value. The notification is not guarded
  either: the listeners are invoked at once, or, when a write-back was issued, by the
  remainder that runs when the write has settled.
\<close>

theorem hydrateLoaded_overwrites:
  "value' (after (hydrateLoaded P C st got)) = repaired C st (nullish got (repairTo st))
   \<and> hydrateLoaded P C (st\<lparr>value' := x\<rparr>) got = hydrateLoaded P C st got
   \<and> (i < length (tasks w) \<and> tasks w ! i = AwaitGet \<longrightarrow>
        value' (store (step P C w (Resume i got)))
          = repaired C (store w) (nullish got (repairTo (store w))))
   \<and> ((emitted (hydrateLoaded P C st got) = map Call (listeners st)
         \<and> pending (hydrateLoaded P C st got) = [])
       \<or> (emitted (hydrateLoaded P C st got)
            = persist P C (repaired C st (nullish got (repairTo st)))
          \<and> pending (hydrateLoaded P C st got) = [AwaitWriteBack]))
   \<and> resume P C st' AwaitWriteBack g
       = \<lparr>after = st', emitted = map Call (listeners st'), pending = []\<rparr>"
  by (auto simp: hydrateLoaded_def hydrateWritten_def resume_def notify_def repaired_def
      absorb_def Let_def)

theorem hydrateLoaded_overwrites_witness:
  "(0::nat) < length [AwaitGet] \<and> [AwaitGet] ! 0 = AwaitGet
   \<and> value' (store (step browser settingsClosure
        \<lparr>store = settingsState (fontSize 3 20), tasks = [AwaitGet], subscribed = True,
         trace = []\<rparr> (Resume 0 (fontSize 5 18))))
      = fontSize 5 18
   \<and> hydrateLoaded browser settingsClosure (settingsState (fontSize 3 20)) (fontSize 1 16)
      = hydrateLoaded browser settingsClosure (settingsState (fontSize 1 16)) (fontSize 1 16)"
proof -
  let ?w = "\<lparr>store = settingsState (fontSize 3 20), tasks = [AwaitGet], subscribed = True,
         trace = []\<rparr>"
  note t = hydrateLoaded_overwrites [where P = browser and C = settingsClosure
      and st = "settingsState (fontSize 1 16)" and got = "fontSize 5 18" and w = ?w and i = 0
      and x = "fontSize 3 20" and st' = "settingsState JNull" and g = JUndefined]
  note u = hydrateLoaded_overwrites [where P = browser and C = settingsClosure
      and st = "settingsState (fontSize 1 16)" and got = "fontSize 1 16" and w = ?w and i = 0
      and x = "fontSize 3 20" and st' = "settingsState JNull" and g = JUndefined]
  have h: "0 < length (tasks ?w) \<and> tasks ?w ! 0 = AwaitGet"
    by simp
  have 1: "value' (store (step browser settingsClosure ?w (Resume 0 (fontSize 5 18))))
      = repaired settingsClosure (store ?w) (nullish (fontSize 5 18) (repairTo (store ?w)))"
    using t h by blast
  have 2: "repaired settingsClosure (store ?w) (nullish (fontSize 5 18) (repairTo (store ?w)))
      = fontSize 5 18"
    by (simp add: settings_defs nullish_def)
  have 3: "(settingsState (fontSize 1 16))\<lparr>value' := fontSize 3 20\<rparr>
      = settingsState (fontSize 3 20)"
    by (simp add: settingsState_def)
  have 4: "hydrateLoaded browser settingsClosure (settingsState (fontSize 3 20)) (fontSize 1 16)
      = hydrateLoaded browser settingsClosure (settingsState (fontSize 1 16)) (fontSize 1 16)"
    using u 3 by simp
  from 1 2 4 show ?thesis
    by simp
qed

section \<open>The message handler\<close>

text \<open>
  Claim C6. A message whose \<open>key\<close> is not the record's key changes nothing and notifies
  nobody. A message for the record with a truthy \<open>removed\<close> moves the record to the repair
  target, not to \<open>null\<close>, and one without it moves the record to the repaired form of its
  \<open>value\<close>; in both cases only if the new value differs from the current one under the
  record's equality, and otherwise nothing happens. Whatever the message, the handler
  either does nothing or assigns a value that differs from the previous one and invokes
  every listener.
\<close>

theorem handler_behaviour:
  "(\<not> strict_eq (getProp d ''key'') (JStr (key C)) \<longrightarrow> handler C st d = noop st)
   \<and> (truthy d \<and> strict_eq (getProp d ''key'') (JStr (key C))
        \<and> truthy (getProp d ''removed'') \<longrightarrow>
        handler C st d =
          (if isEqual C (value' st) (repairTo st) then noop st
           else \<lparr>after = st\<lparr>value' := repairTo st\<rparr>, emitted = map Call (listeners st),
                 pending = []\<rparr>))
   \<and> (truthy d \<and> strict_eq (getProp d ''key'') (JStr (key C))
        \<and> \<not> truthy (getProp d ''removed'') \<longrightarrow>
        handler C st d =
          (if isEqual C (value' st) (repaired C st (getProp d ''value'')) then noop st
           else \<lparr>after = st\<lparr>value' := repaired C st (getProp d ''value'')\<rparr>,
                 emitted = map Call (listeners st), pending = []\<rparr>))
   \<and> (handler C st d = noop st
        \<or> (\<not> isEqual C (value' st) (value' (after (handler C st d)))
           \<and> after (handler C st d) = st\<lparr>value' := value' (after (handler C st d))\<rparr>
           \<and> emitted (handler C st d) = map Call (listeners st)))"
  by (auto simp: handler_def noop_def notify_def repaired_def Let_def)

theorem handler_behaviour_witness:
  "\<not> strict_eq (getProp (JObj 9 [(''key'', JStr ''theme''), (''value'', fontSize 4 24),
                                  (''removed'', JBool False)]) ''key'')
       (JStr (key settingsClosure))
   \<and> handler settingsClosure (settingsState (fontSize 3 20))
        (JObj 9 [(''key'', JStr ''theme''), (''value'', fontSize 4 24),
                 (''removed'', JBool False)])
       = noop (settingsState (fontSize 3 20))
   \<and> truthy (getProp (JObj 9 [(''key'', JStr ''settings''), (''value'', JNull),
                               (''removed'', JBool True)]) ''removed'')
   \<and> handler settingsClosure (settingsState (fontSize 3 20))
        (JObj 9 [(''key'', JStr ''settings''), (''value'', JNull), (''removed'', JBool True)])
       = \<lparr>after = settingsState (fontSize 1 16), emitted = [Call 7], pending = []\<rparr>"
proof -
  let ?d1 = "JObj 9 [(''key'', JStr ''theme''), (''value'', fontSize 4 24),
                     (''removed'', JBool False)]"
  let ?d2 = "JObj 9 [(''key'', JStr ''settings''), (''value'', JNull), (''removed'', JBool True)]"
  note t1 = handler_behaviour [where C = settingsClosure and st = "settingsState (fontSize 3 20)"
      and d = ?d1]
  note t2 = handler_behaviour [where C = settingsClosure and st = "settingsState (fontSize 3 20)"
      and d = ?d2]
  have k1: "\<not> strict_eq (getProp ?d1 ''key'') (JStr (key settingsClosure))"
    by (simp add: settingsClosure_def)
  have k2: "truthy ?d2 \<and> strict_eq (getProp ?d2 ''key'') (JStr (key settingsClosure))
      \<and> truthy (getProp ?d2 ''removed'')"
    by (simp add: settingsClosure_def)
  have 1: "handler settingsClosure (settingsState (fontSize 3 20)) ?d1
      = noop (settingsState (fontSize 3 20))"
    using t1 k1 by blast
  have 2: "handler settingsClosure (settingsState (fontSize 3 20)) ?d2
      = (if isEqual settingsClosure (value' (settingsState (fontSize 3 20)))
              (repairTo (settingsState (fontSize 3 20)))
         then noop (settingsState (fontSize 3 20))
         else \<lparr>after = (settingsState (fontSize 3 20))
                   \<lparr>value' := repairTo (settingsState (fontSize 3 20))\<rparr>,
               emitted = map Call (listeners (settingsState (fontSize 3 20))),
               pending = []\<rparr>)"
    using t2 k2 by blast
  have 3: "(if isEqual settingsClosure (value' (settingsState (fontSize 3 20)))
              (repairTo (settingsState (fontSize 3 20)))
         then noop (settingsState (fontSize 3 20))
         else \<lparr>after = (settingsState (fontSize 3 20))
                   \<lparr>value' := repairTo (settingsState (fontSize 3 20))\<rparr>,
               emitted = map Call (listeners (settingsState (fontSize 3 20))),
               pending = []\<rparr>)
      = \<lparr>after = settingsState (fontSize 1 16), emitted = [Call 7], pending = []\<rparr>"
    by (simp add: settings_defs)
  from k1 k2 1 2 3 show ?thesis
    by simp
qed

section \<open>Invariants of the current value\<close>

lemma step_repairTo: "repairTo (store (step P C w a)) = repairTo (store w)"
  by (cases a) (auto simp: absorb_def op_defs split: task.splits)

lemma step_vetted: "vetted C w \<Longrightarrow> vetted C (step P C w a)"
  by (cases a) (auto simp: vetted_def absorb_def op_defs split: task.splits)

lemma trajectory_vetted:
  "vetted C w \<Longrightarrow>
     \<forall>w' \<in> set (trajectory P C w as). vetted C w' \<and> repairTo (store w') = repairTo (store w)"
proof (induction as arbitrary: w)
  case Nil
  then show ?case by simp
next
  case (Cons a as)
  have "vetted C (step P C w a)"
    using Cons.prems by (rule step_vetted)
  then have "\<forall>w' \<in> set (trajectory P C (step P C w a) as).
      vetted C w' \<and> repairTo (store w') = repairTo (store (step P C w a))"
    by (rule Cons.IH)
  with Cons.prems show ?case by (simp add: step_repairTo)
qed

lemma step_resolved:
  assumes "\<not> isValid C JUndefined" and "repairTo (store w) \<noteq> JUndefined"
    and "value' (store w) \<noteq> JUndefined"
  shows "value' (store (step P C w a)) \<noteq> JUndefined"
  using assms
  by (cases a) (auto simp: absorb_def op_defs split: task.splits)

lemma trajectory_resolved:
  assumes "\<not> isValid C JUndefined"
  shows "repairTo (store w) \<noteq> JUndefined \<Longrightarrow> value' (store w) \<noteq> JUndefined \<Longrightarrow>
     \<forall>w' \<in> set (trajectory P C w as). value' (store w') \<noteq> JUndefined"
proof (induction as arbitrary: w)
  case Nil
  then show ?case by simp
next
  case (Cons a as)
  have "value' (store (step P C w a)) \<noteq> JUndefined"
    using assms Cons.prems by (simp add: step_resolved)
  moreover have "repairTo (store (step P C w a)) \<noteq> JUndefined"
    using Cons.prems by (simp add: step_repairTo)
  ultimately have
    "\<forall>w' \<in> set (trajectory P C (step P C w a) as). value' (store w') \<noteq> JUndefined"
    using Cons.IH by blast
  with Cons.prems show ?case by simp
qed

lemma trajectory_never_back:
  assumes "\<not> isValid C JUndefined"
  shows "repairTo (store w) \<noteq> JUndefined \<Longrightarrow> i \<le> j \<Longrightarrow>
     j < length (trajectory P C w as) \<Longrightarrow>
     value' (store (trajectory P C w as ! i)) \<noteq> JUndefined \<Longrightarrow>
     value' (store (trajectory P C w as ! j)) \<noteq> JUndefined"
proof (induction as arbitrary: w i j)
  case Nil
  then show ?case by simp
next
  case (Cons a as)
  show ?case
  proof (cases i)
    case 0
    then have "value' (store w) \<noteq> JUndefined"
      using Cons.prems by simp
    then have "\<forall>w' \<in> set (trajectory P C w (a # as)). value' (store w') \<noteq> JUndefined"
      using assms Cons.prems(1) trajectory_resolved by blast
    then show ?thesis
      using Cons.prems(3) nth_mem by blast
  next
    case (Suc i')
    then obtain j' where j: "j = Suc j'"
      using Cons.prems(2) by (cases j) auto
    have "repairTo (store (step P C w a)) \<noteq> JUndefined"
      using Cons.prems(1) by (simp add: step_repairTo)
    then have "value' (store (trajectory P C (step P C w a) as ! j')) \<noteq> JUndefined"
      using Cons.IH [of "step P C w a" i' j'] Cons.prems Suc j by simp
    then show ?thesis
      using j by simp
  qed
qed

text \<open>
  Claim C7, as the code has it. Take a record as \<open>getStore\<close> creates it and any
  sequence of calls of \<open>hydrate\<close> and \<open>setValue\<close>, listener changes, resumptions of suspended reads and writes
  with any result, and deliveries of any message. In every world the sequence passes
  through, the current value is the sentinel \<open>undefined\<close>, or satisfies the validation
  predicate, or is the repair target. If moreover the sentinel is not itself a value of the
  payload type, that is, the validation predicate rejects \<open>undefined\<close> and the repair target
  is not \<open>undefined\<close>, then a current value that has left the sentinel at one point of the
  sequence is not the sentinel at any later point.
\<close>

theorem currentValue_invariants:
  "(\<forall>w \<in> set (trajectory P C (newWorld initial) as).
      value' (store w) = JUndefined \<or> isValid C (value' (store w))
      \<or> value' (store w) = initial)
   \<and> (\<not> isValid C JUndefined \<and> initial \<noteq> JUndefined \<longrightarrow>
        (\<forall>i j. i \<le> j \<and> j < length (trajectory P C (newWorld initial) as)
           \<and> value' (store (trajectory P C (newWorld initial) as ! i)) \<noteq> JUndefined \<longrightarrow>
           value' (store (trajectory P C (newWorld initial) as ! j)) \<noteq> JUndefined))"
proof (intro conjI impI allI)
  have v: "vetted C (newWorld initial)"
    by (simp add: vetted_def newWorld_def newState_def)
  have r: "repairTo (store (newWorld initial)) = initial"
    by (simp add: newWorld_def newState_def)
  show "\<forall>w \<in> set (trajectory P C (newWorld initial) as).
      value' (store w) = JUndefined \<or> isValid C (value' (store w))
      \<or> value' (store w) = initial"
    using trajectory_vetted [OF v, of P as] r by (auto simp: vetted_def)
  fix i j
  assume h: "\<not> isValid C JUndefined \<and> initial \<noteq> JUndefined"
    and ij: "i \<le> j \<and> j < length (trajectory P C (newWorld initial) as)
           \<and> value' (store (trajectory P C (newWorld initial) as ! i)) \<noteq> JUndefined"
  show "value' (store (trajectory P C (newWorld initial) as ! j)) \<noteq> JUndefined"
    using trajectory_never_back [of C "newWorld initial" i j P as] h ij r by simp
qed

theorem currentValue_invariants_witness:
  "\<not> isValid settingsClosure JUndefined
   \<and> fontSize 1 16 \<noteq> JUndefined
   \<and> (2::nat) \<le> 4
   \<and> 4 < length (trajectory browser settingsClosure (newWorld (fontSize 1 16))
        [Hydrate, SetValue (fontSize 3 20), Resume 0 JUndefined,
         Deliver (JObj 9 [(''key'', JStr ''settings''), (''value'', fontSize 5 999)])])
   \<and> value' (store (trajectory browser settingsClosure (newWorld (fontSize 1 16))
        [Hydrate, SetValue (fontSize 3 20), Resume 0 JUndefined,
         Deliver (JObj 9 [(''key'', JStr ''settings''), (''value'', fontSize 5 999)])] ! 2))
       = fontSize 3 20
   \<and> value' (store (trajectory browser settingsClosure (newWorld (fontSize 1 16))
        [Hydrate, SetValue (fontSize 3 20), Resume 0 JUndefined,
         Deliver (JObj 9 [(''key'', JStr ''settings''), (''value'', fontSize 5 999)])] ! 4))
       \<noteq> JUndefined"
proof -
  let ?as = "[Hydrate, SetValue (fontSize 3 20), Resume 0 JUndefined,
         Deliver (JObj 9 [(''key'', JStr ''settings''), (''value'', fontSize 5 999)])]"
  let ?t = "trajectory browser settingsClosure (newWorld (fontSize 1 16)) ?as"
  note t = currentValue_invariants [where P = browser and C = settingsClosure
      and initial = "fontSize 1 16" and as = ?as]
  have h: "\<not> isValid settingsClosure JUndefined \<and> fontSize 1 16 \<noteq> JUndefined"
    by (simp add: settings_defs)
  have l: "4 < length ?t"
    by simp
  have w1: "step browser settingsClosure (newWorld (fontSize 1 16)) Hydrate
      = \<lparr>store = (settingsState JUndefined)\<lparr>listeners := []\<rparr>, tasks = [AwaitGet],
         subscribed = True,
         trace = [IdbGet ''local-db'' ''local-db'' ''settings'',
                  BcListen ''local-db'' ''local-db'']\<rparr>"
    by (simp add: newWorld_def newState_def absorb_def hydrate_def idbGet_def
        getBroadcastChannel_def browser_def settingsClosure_def nsDb_def nsSt_def nsOrEmpty_def DEFAULT_DB_def
        DEFAULT_STORE_def settingsState_def Let_def)
  have w2: "value' (store (step browser settingsClosure
        (step browser settingsClosure (newWorld (fontSize 1 16)) Hydrate)
        (SetValue (fontSize 3 20)))) = fontSize 3 20"
    unfolding w1
    by (simp add: absorb_def setValue_def settings_defs Let_def)
  have v2: "value' (store (?t ! 2)) = fontSize 3 20"
    using w2 by simp
  then have n2: "value' (store (?t ! 2)) \<noteq> JUndefined"
    by (simp add: fontSize_def)
  have "value' (store (?t ! 4)) \<noteq> JUndefined"
    using t [THEN conjunct2, rule_format, OF h, of 2 4] l n2 by simp
  with h l v2 show ?thesis
    by simp
qed

text \<open>
  The claim as written, for every record, fails: a record whose schema accepts
  \<open>undefined\<close> returns to the sentinel. With \<open>z.any()\<close> as the schema, \<open>setValue(1)\<close>
  followed by \<open>setValue(undefined)\<close> passes through the current values \<open>undefined\<close>, \<open>1\<close>,
  \<open>undefined\<close>; and after \<open>hydrate()\<close> and \<open>setValue(5)\<close>, a message for the key that
  has no \<open>value\<close> field sets the current value to \<open>undefined\<close> again.
\<close>

theorem currentValue_sentinel_counterexample:
  "currentValues (trajectory browser anyClosure (newWorld JNull)
      [SetValue (JNum 1), SetValue JUndefined])
     = [JUndefined, JNum 1, JUndefined]
   \<and> currentValues (trajectory browser anyClosure (newWorld JNull)
      [Hydrate, SetValue (JNum 5), Deliver (JObj 9 [(''key'', JStr ''settings'')])])
     = [JUndefined, JUndefined, JNum 5, JUndefined]"
  by (simp add: currentValues_def anyClosure_def anySchema_def browser_def newWorld_def
      newState_def absorb_def setValue_def hydrate_def handler_def useLocalDb_isValid_def
      useLocalDb_isEqual_def getBroadcastChannel_def Let_def)

end
